theory Spec2Isabelle
  imports Main "HOL-Library.Word"
begin

section \<open>The CPU boost coordinator of drivers/cpufreq/cpu-boost.c\<close>

text \<open>
  A shallow embedding of \<^verbatim>\<open>drivers/cpufreq/cpu-boost.c\<close>. The file's static
  variables become the fields of one record, every function of the file becomes a
  function from the state before the call to the state after it, and the value of
  \<^verbatim>\<open>jiffies\<close> read by a function is an argument of its model.
\<close>

subsection \<open>Machine integers and constants\<close>

text \<open>
  \<^verbatim>\<open>unsigned int\<close> is 32 bits wide. \<^verbatim>\<open>unsigned long\<close> (the type of
  \<^verbatim>\<open>jiffies\<close> and \<^verbatim>\<open>last_input_time\<close>) is 64 bits wide on the arm64 target
  of this kernel tree. Comparison and \<open>min\<close> on words are unsigned, addition wraps.
\<close>

type_synonym uint = "32 word"
type_synonym ulong = "64 word"

definition UINT_MAX :: uint where
  "UINT_MAX = 4294967295"

definition IB_FREQ_MIN :: uint where
  "IB_FREQ_MIN = 1113600"

definition IB_FREQ_MAX :: uint where
  "IB_FREQ_MAX = 1113600"

definition IB_DURATION :: uint where
  "IB_DURATION = 150"

definition MDSS_TIMEOUT :: uint where
  "MDSS_TIMEOUT = 5000"

text \<open>
  Modelled from the spec: the notifier event \<^verbatim>\<open>CPUFREQ_ADJUST\<close> is declared in
  \<^verbatim>\<open>linux/cpufreq.h\<close>, which is not among the sources. Only the fact that it is
  one particular event value matters below.
\<close>

definition CPUFREQ_ADJUST :: ulong where
  "CPUFREQ_ADJUST = 0"

text \<open>
  Modelled from the spec: the notifier return value \<^verbatim>\<open>NOTIFY_OK\<close> is declared in
  \<^verbatim>\<open>linux/notifier.h\<close>, which is not among the sources. The hook returns it on
  every path.
\<close>

definition NOTIFY_OK :: int where
  "NOTIFY_OK = 1"

text \<open>
  Modelled from the spec: the error number \<^verbatim>\<open>EFAULT\<close> is declared in a header that
  is not among the sources. Only the fact that it is not 0 matters below.
\<close>

definition EFAULT :: int where
  "EFAULT = 14"

subsection \<open>Data\<close>

text \<open>\<^verbatim>\<open>struct cpu_sync\<close>: one per CPU.\<close>

record cpu_sync =
  cpu :: int
  input_boost_min :: uint

text \<open>
  The three fields of \<^verbatim>\<open>struct cpufreq_policy\<close> that the file reads or writes.
\<close>

record cpufreq_policy =
  pol_cpu :: nat
  pol_min :: uint
  pol_max :: uint

subsection \<open>The policy-adjustment hook\<close>

text \<open>
  Modelled from the spec: \<^verbatim>\<open>cpufreq_verify_within_limits\<close> is an inline helper of
  \<^verbatim>\<open>linux/cpufreq.h\<close>, which is not among the sources. It brings both limits of
  the policy into the range from \<open>lo\<close> to \<open>hi\<close> and then keeps the minimum at or below
  the maximum. On the only call the file makes (\<open>lo\<close> at or below the policy's maximum,
  \<open>hi = UINT_MAX\<close>) this is the spec's "clamp the proposed minimum upward to at least
  effective_min, never exceeding max", see \<open>cpufreq_verify_within_limits_floor\<close>.
\<close>

definition cpufreq_verify_within_limits ::
  "cpufreq_policy \<Rightarrow> uint \<Rightarrow> uint \<Rightarrow> cpufreq_policy" where
  "cpufreq_verify_within_limits policy lo hi =
     (let p1 = (if pol_min policy < lo then policy\<lparr>pol_min := lo\<rparr> else policy);
          p2 = (if pol_max p1 < lo then p1\<lparr>pol_max := lo\<rparr> else p1);
          p3 = (if hi < pol_min p2 then p2\<lparr>pol_min := hi\<rparr> else p2);
          p4 = (if hi < pol_max p3 then p3\<lparr>pol_max := hi\<rparr> else p3)
      in if pol_max p4 < pol_min p4 then p4\<lparr>pol_min := pol_max p4\<rparr> else p4)"

text \<open>
  \<^verbatim>\<open>boost_adjust_notify\<close>. The per-CPU variable \<^verbatim>\<open>sync_info\<close> is a function from
  the CPU number; the hook reads the entry of \<^verbatim>\<open>policy->cpu\<close>, writes the policy
  and returns \<^verbatim>\<open>NOTIFY_OK\<close>. The \<^verbatim>\<open>switch\<close> has the single case
  \<^verbatim>\<open>CPUFREQ_ADJUST\<close>.
\<close>

definition boost_adjust_notify ::
  "(nat \<Rightarrow> cpu_sync) \<Rightarrow> ulong \<Rightarrow> cpufreq_policy \<Rightarrow> int \<times> cpufreq_policy" where
  "boost_adjust_notify sync val policy =
     (let s = sync (pol_cpu policy);
          ib_min = input_boost_min s
      in if val = CPUFREQ_ADJUST then
           (if ib_min = 0 then (NOTIFY_OK, policy)
            else
              let ib_min' = min (if input_boost_min s = UINT_MAX then pol_max policy
                                 else input_boost_min s) (pol_max policy)
              in (NOTIFY_OK, cpufreq_verify_within_limits policy ib_min' UINT_MAX))
         else (NOTIFY_OK, policy))"

subsection \<open>Time\<close>

text \<open>
  Modelled from the spec: \<^verbatim>\<open>time_after\<close> is a macro of \<^verbatim>\<open>linux/jiffies.h\<close>,
  which is not among the sources. \<open>time_after a b\<close> says that the tick count \<open>a\<close> is
  after \<open>b\<close>; the counter wraps around, so the test is on the sign of the difference
  read as a signed number. Lemma \<open>time_after_unat\<close> relates it to the comparison of the
  tick counts.
\<close>

definition time_after :: "ulong \<Rightarrow> ulong \<Rightarrow> bool" where
  "time_after a b = (sint (b - a) < 0)"

text \<open>
  Modelled from the spec: \<^verbatim>\<open>time_after_eq\<close>, of the same header: the tick count
  \<open>a\<close> is at or after \<open>b\<close>. The file does not call it; the model of the worker below
  uses it for "the timer has reached its deadline".
\<close>

definition time_after_eq :: "ulong \<Rightarrow> ulong \<Rightarrow> bool" where
  "time_after_eq a b = (0 \<le> sint (a - b))"

text \<open>
  Modelled from the spec: \<^verbatim>\<open>msecs_to_jiffies\<close> is not among the sources and its
  result depends on the tick rate of the kernel configuration. The spec counts time
  in milliseconds throughout, so the model's clock ticks once per millisecond and the
  conversion only widens its argument.
\<close>

definition msecs_to_jiffies :: "uint \<Rightarrow> ulong" where
  "msecs_to_jiffies m = ucast m"

subsection \<open>The state of the file\<close>

text \<open>
  The static variables of the file, and what it reads from its collaborators:
  \<^item> \<open>sync_info\<close>: the per-CPU variable, a \<^verbatim>\<open>struct cpu_sync\<close> for each CPU number;
  \<^item> \<open>max_boost_active\<close>, \<open>last_input_time\<close>, and the external flag \<open>st_cpu_bias\<close>;
  \<^item> \<open>cpu_boost_wq\<close>: whether the workqueue pointer is non-null;
  \<^item> \<open>input_boost_work\<close>: whether the work item is pending (queued, not yet started);
  \<^item> \<open>input_boost_rem\<close>: the delayed work item, \<open>Some t\<close> when it is pending with its
    timer set to tick \<open>t\<close>, \<open>None\<close> when it is not pending;
  \<^item> \<open>boost_adjust_nb\<close> and \<open>cpuboost_input_handler\<close>: whether the notifier block and
    the input handler are registered;
  \<^item> \<open>cpu_possible_mask\<close> and \<open>cpu_online_mask\<close>: the CPUs that
    \<^verbatim>\<open>for_each_possible_cpu\<close> and \<^verbatim>\<open>for_each_online_cpu\<close> visit, in order;
  \<^item> \<open>policy_updates\<close>: the CPUs for which \<^verbatim>\<open>cpufreq_update_policy\<close> has been
    called so far, oldest first.
\<close>

record cpu_boost =
  sync_info :: "nat \<Rightarrow> cpu_sync"
  max_boost_active :: bool
  last_input_time :: ulong
  st_cpu_bias :: bool
  cpu_boost_wq :: bool
  input_boost_work :: bool
  input_boost_rem :: "ulong option"
  boost_adjust_nb :: bool
  cpuboost_input_handler :: bool
  cpu_possible_mask :: "nat list"
  cpu_online_mask :: "nat list"
  policy_updates :: "nat list"

text \<open>The state at boot: static storage is zero, nothing is allocated or registered.\<close>

definition initial :: "nat list \<Rightarrow> nat list \<Rightarrow> cpu_boost" where
  "initial possible online =
     \<lparr>sync_info = (\<lambda>_. \<lparr>cpu = 0, input_boost_min = 0\<rparr>),
      max_boost_active = False,
      last_input_time = 0,
      st_cpu_bias = False,
      cpu_boost_wq = False,
      input_boost_work = False,
      input_boost_rem = None,
      boost_adjust_nb = False,
      cpuboost_input_handler = False,
      cpu_possible_mask = possible,
      cpu_online_mask = online,
      policy_updates = []\<rparr>"

subsection \<open>The kernel services the file calls\<close>

text \<open>
  The workqueue interface (\<^verbatim>\<open>linux/workqueue.h\<close>) is not among the sources. The
  spec describes a single task queue, at most one activation task pending, and a
  single-slot expiry task that is cancelled and scheduled again. The file applies
  \<^verbatim>\<open>work_pending\<close> and \<^verbatim>\<open>queue_work\<close> only to \<^verbatim>\<open>input_boost_work\<close>, and
  \<^verbatim>\<open>cancel_delayed_work_sync\<close> and \<^verbatim>\<open>queue_delayed_work\<close> only to
  \<^verbatim>\<open>input_boost_rem\<close>, so the models take no work item as an argument.
\<close>

text \<open>
  Modelled from the spec: \<^verbatim>\<open>work_pending\<close>, whether the activation task is queued
  and has not started to run.
\<close>

definition work_pending :: "cpu_boost \<Rightarrow> bool" where
  "work_pending s = input_boost_work s"

text \<open>
  Modelled from the spec: \<^verbatim>\<open>queue_work\<close> marks the activation task pending, and
  does nothing if it already is: at most one activation is in flight.
\<close>

definition queue_work :: "cpu_boost \<Rightarrow> cpu_boost" where
  "queue_work s = (if input_boost_work s then s else s\<lparr>input_boost_work := True\<rparr>)"

text \<open>
  Modelled from the spec: \<^verbatim>\<open>cancel_delayed_work_sync\<close> cancels the pending expiry
  task, waiting for it if it is running; with every function of the file taken as
  one atomic step, it leaves the expiry task not pending.
\<close>

definition cancel_delayed_work_sync :: "cpu_boost \<Rightarrow> cpu_boost" where
  "cancel_delayed_work_sync s = s\<lparr>input_boost_rem := None\<rparr>"

text \<open>
  Modelled from the spec: \<^verbatim>\<open>queue_delayed_work\<close> schedules the expiry task
  \<open>delay\<close> ticks from now when it is not pending, and does nothing to one that is
  pending.
\<close>

definition queue_delayed_work :: "ulong \<Rightarrow> ulong \<Rightarrow> cpu_boost \<Rightarrow> cpu_boost" where
  "queue_delayed_work now delay s =
     (case input_boost_rem s of
        None \<Rightarrow> s\<lparr>input_boost_rem := Some (now + delay)\<rparr>
      | Some t \<Rightarrow> s)"

text \<open>
  Modelled from the spec: \<^verbatim>\<open>cpufreq_update_policy\<close> belongs to the cpufreq core,
  which is not among the sources. The call asks the policy authority to re-evaluate
  the limits of one CPU; the model records the request.
\<close>

definition cpufreq_update_policy :: "nat \<Rightarrow> cpu_boost \<Rightarrow> cpu_boost" where
  "cpufreq_update_policy i s = s\<lparr>policy_updates := policy_updates s @ [i]\<rparr>"

text \<open>
  Modelled from the spec: \<^verbatim>\<open>cpufreq_register_notifier\<close> is not among the sources.
  It returns 0 when it has registered the notifier block and an error code when it
  has registered nothing; the result \<open>r\<close> that the kernel gives is an argument of the
  model.
\<close>

definition cpufreq_register_notifier :: "int \<Rightarrow> cpu_boost \<Rightarrow> int \<times> cpu_boost" where
  "cpufreq_register_notifier r s = (r, if r = 0 then s\<lparr>boost_adjust_nb := True\<rparr> else s)"

text \<open>
  Modelled from the spec: \<^verbatim>\<open>input_register_handler\<close> is not among the sources. It
  returns 0 when it has registered the input handler and an error code when it has
  registered nothing; the result \<open>r\<close> that the kernel gives is an argument of the
  model.
\<close>

definition input_register_handler :: "int \<Rightarrow> cpu_boost \<Rightarrow> int \<times> cpu_boost" where
  "input_register_handler r s =
     (r, if r = 0 then s\<lparr>cpuboost_input_handler := True\<rparr> else s)"

subsection \<open>The functions of the file\<close>

text \<open>
  The assignment \<^verbatim>\<open>per_cpu(sync_info, i).input_boost_min = v\<close> and, for
  \<^verbatim>\<open>cpu_boost_init\<close>, \<^verbatim>\<open>per_cpu(sync_info, i).cpu = i\<close>.
\<close>

definition set_input_boost_min :: "nat \<Rightarrow> uint \<Rightarrow> cpu_boost \<Rightarrow> cpu_boost" where
  "set_input_boost_min i v s =
     s\<lparr>sync_info := (sync_info s)(i := (sync_info s i)\<lparr>input_boost_min := v\<rparr>)\<rparr>"

definition set_cpu :: "nat \<Rightarrow> cpu_boost \<Rightarrow> cpu_boost" where
  "set_cpu i s = s\<lparr>sync_info := (sync_info s)(i := (sync_info s i)\<lparr>cpu := int i\<rparr>)\<rparr>"

text \<open>
  \<^verbatim>\<open>update_policy_online\<close>: \<^verbatim>\<open>cpufreq_update_policy\<close> for each online CPU.
\<close>

definition update_policy_online :: "cpu_boost \<Rightarrow> cpu_boost" where
  "update_policy_online s = fold cpufreq_update_policy (cpu_online_mask s) s"

text \<open>
  \<^verbatim>\<open>do_input_boost_rem\<close>, the expiry task: it clears \<^verbatim>\<open>st_cpu_bias\<close>, writes
  floor 0 for each possible CPU, updates the policies, clears \<open>max_boost_active\<close>.
\<close>

definition do_input_boost_rem :: "cpu_boost \<Rightarrow> cpu_boost" where
  "do_input_boost_rem s =
     (let s1 = (if st_cpu_bias s then s\<lparr>st_cpu_bias := False\<rparr> else s);
          s2 = fold (\<lambda>i. set_input_boost_min i 0) (cpu_possible_mask s1) s1;
          s3 = update_policy_online s2
      in if max_boost_active s3 then s3\<lparr>max_boost_active := False\<rparr> else s3)"

text \<open>
  \<^verbatim>\<open>do_input_boost\<close>, the activation task: it returns at once while
  \<open>max_boost_active\<close> holds; otherwise it cancels the expiry task, writes
  \<^verbatim>\<open>IB_FREQ_MIN\<close> for the possible CPUs below 4 and \<^verbatim>\<open>IB_FREQ_MAX\<close> for the
  others, updates the policies and schedules the expiry task \<^verbatim>\<open>IB_DURATION\<close> ms
  from now.
\<close>

definition do_input_boost :: "ulong \<Rightarrow> cpu_boost \<Rightarrow> cpu_boost" where
  "do_input_boost now s =
     (if max_boost_active s then s
      else
        let s1 = cancel_delayed_work_sync s;
            s2 = fold (\<lambda>i. set_input_boost_min i (if i < 4 then IB_FREQ_MIN else IB_FREQ_MAX))
                   (cpu_possible_mask s1) s1;
            s3 = update_policy_online s2
        in queue_delayed_work now (msecs_to_jiffies IB_DURATION) s3)"

text \<open>
  \<^verbatim>\<open>mdss_boost_kick\<close>: it returns at once when the activation task is pending or
  when \<^verbatim>\<open>jiffies\<close> is after \<open>last_input_time\<close> plus \<^verbatim>\<open>MDSS_TIMEOUT\<close> ms;
  otherwise it sets \<^verbatim>\<open>st_cpu_bias\<close> and queues the activation task.
\<close>

definition mdss_boost_kick :: "ulong \<Rightarrow> cpu_boost \<Rightarrow> cpu_boost" where
  "mdss_boost_kick now s =
     (if work_pending s
         \<or> time_after now (last_input_time s + msecs_to_jiffies MDSS_TIMEOUT)
      then s
      else
        let s1 = (if \<not> st_cpu_bias s then s\<lparr>st_cpu_bias := True\<rparr> else s)
        in queue_work s1)"

text \<open>
  \<^verbatim>\<open>do_input_boost_max\<close>: it cancels the expiry task, writes \<^verbatim>\<open>UINT_MAX\<close> for
  each possible CPU, updates the policies, schedules the expiry task \<open>duration_ms\<close>
  from now and sets \<open>max_boost_active\<close>.
\<close>

definition do_input_boost_max :: "ulong \<Rightarrow> uint \<Rightarrow> cpu_boost \<Rightarrow> cpu_boost" where
  "do_input_boost_max now duration_ms s =
     (let s1 = cancel_delayed_work_sync s;
          s2 = fold (\<lambda>i. set_input_boost_min i UINT_MAX) (cpu_possible_mask s1) s1;
          s3 = update_policy_online s2;
          s4 = queue_delayed_work now (msecs_to_jiffies duration_ms) s3
      in s4\<lparr>max_boost_active := True\<rparr>)"

text \<open>
  \<^verbatim>\<open>input_boost_max_kick\<close>: it sets \<^verbatim>\<open>st_cpu_bias\<close> and calls
  \<^verbatim>\<open>do_input_boost_max\<close>.
\<close>

definition input_boost_max_kick :: "ulong \<Rightarrow> uint \<Rightarrow> cpu_boost \<Rightarrow> cpu_boost" where
  "input_boost_max_kick now duration_ms s =
     (let s1 = (if \<not> st_cpu_bias s then s\<lparr>st_cpu_bias := True\<rparr> else s)
      in do_input_boost_max now duration_ms s1)"

text \<open>
  \<^verbatim>\<open>cpuboost_input_event\<close>: it first stores \<^verbatim>\<open>jiffies\<close> in \<open>last_input_time\<close>,
  then returns if the activation task is pending, and otherwise sets
  \<^verbatim>\<open>st_cpu_bias\<close> and queues the activation task. The arguments of the input event
  (handle, type, code, value) are not read.
\<close>

definition cpuboost_input_event :: "ulong \<Rightarrow> cpu_boost \<Rightarrow> cpu_boost" where
  "cpuboost_input_event now s =
     (let s1 = s\<lparr>last_input_time := now\<rparr>
      in if work_pending s1 then s1
         else
           let s2 = (if \<not> st_cpu_bias s1 then s1\<lparr>st_cpu_bias := True\<rparr> else s1)
           in queue_work s2)"

text \<open>
  \<^verbatim>\<open>cpu_boost_init\<close>. \<open>wq\<close> says whether \<^verbatim>\<open>alloc_workqueue\<close> returns a
  workqueue, \<open>nb_ret\<close> and \<open>ih_ret\<close> are the results of the two registrations. The
  function ignores the result of \<^verbatim>\<open>cpufreq_register_notifier\<close> and returns that
  of \<^verbatim>\<open>input_register_handler\<close>.
\<close>

definition cpu_boost_init :: "bool \<Rightarrow> int \<Rightarrow> int \<Rightarrow> cpu_boost \<Rightarrow> int \<times> cpu_boost" where
  "cpu_boost_init wq nb_ret ih_ret s =
     (let s1 = s\<lparr>cpu_boost_wq := wq\<rparr>
      in if \<not> cpu_boost_wq s1 then (- EFAULT, s1)
         else
           let s2 = s1\<lparr>input_boost_work := False, input_boost_rem := None\<rparr>;
               s3 = fold set_cpu (cpu_possible_mask s2) s2;
               s4 = snd (cpufreq_register_notifier nb_ret s3)
           in input_register_handler ih_ret s4)"

subsection \<open>The worker and the steps of the coordinator\<close>

text \<open>
  Modelled from the spec: the worker of the workqueue is not among the sources. It
  takes the pending activation task, clears its pending mark and then calls its
  function \<^verbatim>\<open>do_input_boost\<close>, as \<^verbatim>\<open>INIT_WORK\<close> in \<^verbatim>\<open>cpu_boost_init\<close> sets
  up. The file calls \<^verbatim>\<open>do_input_boost\<close> from nowhere else.
\<close>

definition run_input_boost_work :: "ulong \<Rightarrow> cpu_boost \<Rightarrow> cpu_boost" where
  "run_input_boost_work now s =
     (if input_boost_work s then do_input_boost now (s\<lparr>input_boost_work := False\<rparr>)
      else s)"

text \<open>
  Modelled from the spec: the worker running the expiry task. Once the timer of the
  pending expiry task has reached its deadline, the worker clears the pending mark
  and then calls \<^verbatim>\<open>do_input_boost_rem\<close>, as \<^verbatim>\<open>INIT_DELAYED_WORK\<close> sets up. The
  file calls \<^verbatim>\<open>do_input_boost_rem\<close> from nowhere else.
\<close>

definition run_input_boost_rem :: "ulong \<Rightarrow> cpu_boost \<Rightarrow> cpu_boost" where
  "run_input_boost_rem now s =
     (case input_boost_rem s of
        None \<Rightarrow> s
      | Some t \<Rightarrow>
          if time_after_eq now t then do_input_boost_rem (s\<lparr>input_boost_rem := None\<rparr>)
          else s)"

text \<open>
  What can happen to the coordinator, each taken as one atomic step at tick \<open>now\<close>:
  an input event, a kick, a strong-boost request, the worker running the activation
  task, the worker running the expiry task.
\<close>

datatype event =
    Input_event ulong
  | Mdss_kick ulong
  | Max_kick ulong uint
  | Run_boost ulong
  | Run_rem ulong

fun step :: "event \<Rightarrow> cpu_boost \<Rightarrow> cpu_boost" where
  "step (Input_event now) s = cpuboost_input_event now s"
| "step (Mdss_kick now) s = mdss_boost_kick now s"
| "step (Max_kick now d) s = input_boost_max_kick now d s"
| "step (Run_boost now) s = run_input_boost_work now s"
| "step (Run_rem now) s = run_input_boost_rem now s"

text \<open>
  The reachable states: those after a successful \<^verbatim>\<open>cpu_boost_init\<close> at boot, and
  those one step after a reachable state.
\<close>

inductive reachable :: "nat list \<Rightarrow> nat list \<Rightarrow> cpu_boost \<Rightarrow> bool"
  for possible online where
    reachable_init:
      "fst (cpu_boost_init wq nb_ret ih_ret (initial possible online)) = 0 \<Longrightarrow>
       reachable possible online
         (snd (cpu_boost_init wq nb_ret ih_ret (initial possible online)))"
  | reachable_step:
      "reachable possible online s \<Longrightarrow> reachable possible online (step e s)"

text \<open>The boost floor of a CPU.\<close>

definition boost_floor :: "cpu_boost \<Rightarrow> nat \<Rightarrow> uint" where
  "boost_floor s i = input_boost_min (sync_info s i)"

text \<open>
  How a step moves the timestamp: an input event stamps it, no other step does.
\<close>

fun stamp :: "event \<Rightarrow> ulong \<Rightarrow> ulong" where
  "stamp (Input_event now) t = now"
| "stamp (Mdss_kick now) t = t"
| "stamp (Max_kick now d) t = t"
| "stamp (Run_boost now) t = t"
| "stamp (Run_rem now) t = t"

subsection \<open>A concrete machine\<close>

text \<open>
  Six CPUs, all online, after a successful \<^verbatim>\<open>cpu_boost_init\<close>: the state in
  which the scenarios below start.
\<close>

definition booted :: cpu_boost where
  "booted = snd (cpu_boost_init True 0 0 (initial [0, 1, 2, 3, 4, 5] [0, 1, 2, 3, 4, 5]))"

text \<open>
  The same machine with a strong boost of 5000 ms requested at tick 1, after which
  all CPUs but 0 and 4 have gone offline.
\<close>

definition strong_two_online :: cpu_boost where
  "strong_two_online = (input_boost_max_kick 1 5000 booted)\<lparr>cpu_online_mask := [0, 4]\<rparr>"

section \<open>Helper lemmas\<close>

subsection \<open>The hook\<close>

lemma le_UINT_MAX: "x \<le> UINT_MAX"
proof -
  have m: "UINT_MAX = (- 1 :: uint)" by (simp add: UINT_MAX_def)
  show ?thesis unfolding m by simp
qed

lemma cpufreq_verify_within_limits_floor:
  assumes "lo \<le> pol_max p"
  shows "cpufreq_verify_within_limits p lo UINT_MAX =
           p\<lparr>pol_min := min (max (pol_min p) lo) (pol_max p)\<rparr>"
proof -
  have hi: "\<not> UINT_MAX < x" for x
    using le_UINT_MAX [of x] by (simp add: not_less)
  show ?thesis
    using assms
    by (auto simp: cpufreq_verify_within_limits_def Let_def hi min_def max_def not_less)
qed

subsection \<open>The loops over the CPUs\<close>

lemma fold_set_input_boost_min:
  "fold (\<lambda>i. set_input_boost_min i (v i)) xs s =
     s\<lparr>sync_info := (\<lambda>j. if j \<in> set xs then (sync_info s j)\<lparr>input_boost_min := v j\<rparr>
                          else sync_info s j)\<rparr>"
proof (induction xs arbitrary: s)
  case Nil
  show ?case by simp
next
  case (Cons x xs)
  have "fold (\<lambda>i. set_input_boost_min i (v i)) (x # xs) s =
          fold (\<lambda>i. set_input_boost_min i (v i)) xs (set_input_boost_min x (v x) s)"
    by simp
  also have "\<dots> = (set_input_boost_min x (v x) s)\<lparr>sync_info :=
      (\<lambda>j. if j \<in> set xs
            then (sync_info (set_input_boost_min x (v x) s) j)\<lparr>input_boost_min := v j\<rparr>
            else sync_info (set_input_boost_min x (v x) s) j)\<rparr>"
    by (rule Cons.IH)
  also have "\<dots> = s\<lparr>sync_info :=
      (\<lambda>j. if j \<in> set (x # xs) then (sync_info s j)\<lparr>input_boost_min := v j\<rparr>
            else sync_info s j)\<rparr>"
    by (auto simp: set_input_boost_min_def fun_eq_iff)
  finally show ?case .
qed

lemma fold_cpufreq_update_policy:
  "fold cpufreq_update_policy xs s = s\<lparr>policy_updates := policy_updates s @ xs\<rparr>"
  by (induction xs arbitrary: s) (simp_all add: cpufreq_update_policy_def)

lemma update_policy_online_eq:
  "update_policy_online s = s\<lparr>policy_updates := policy_updates s @ cpu_online_mask s\<rparr>"
  by (simp add: update_policy_online_def fold_cpufreq_update_policy)

lemma do_input_boost_max_eq:
  "do_input_boost_max now d s =
     s\<lparr>sync_info := (\<lambda>j. if j \<in> set (cpu_possible_mask s)
                          then (sync_info s j)\<lparr>input_boost_min := UINT_MAX\<rparr>
                          else sync_info s j),
       max_boost_active := True,
       input_boost_rem := Some (now + msecs_to_jiffies d),
       policy_updates := policy_updates s @ cpu_online_mask s\<rparr>"
  by (simp add: do_input_boost_max_def Let_def cancel_delayed_work_sync_def
      fold_set_input_boost_min update_policy_online_eq queue_delayed_work_def cong: if_cong)

lemma do_input_boost_eq:
  "do_input_boost now s =
     (if max_boost_active s then s
      else s\<lparr>sync_info := (\<lambda>j. if j \<in> set (cpu_possible_mask s)
                          then (sync_info s j)\<lparr>input_boost_min :=
                                 (if j < 4 then IB_FREQ_MIN else IB_FREQ_MAX)\<rparr>
                          else sync_info s j),
       input_boost_rem := Some (now + msecs_to_jiffies IB_DURATION),
       policy_updates := policy_updates s @ cpu_online_mask s\<rparr>)"
  by (simp add: do_input_boost_def Let_def cancel_delayed_work_sync_def
      fold_set_input_boost_min update_policy_online_eq queue_delayed_work_def cong: if_cong)

lemma do_input_boost_rem_eq:
  "do_input_boost_rem s =
     s\<lparr>sync_info := (\<lambda>j. if j \<in> set (cpu_possible_mask s)
                          then (sync_info s j)\<lparr>input_boost_min := 0\<rparr>
                          else sync_info s j),
       max_boost_active := False,
       st_cpu_bias := False,
       policy_updates := policy_updates s @ cpu_online_mask s\<rparr>"
  by (simp add: do_input_boost_rem_def Let_def
      fold_set_input_boost_min update_policy_online_eq cong: if_cong)

subsection \<open>Wrapping time\<close>

lemma sint_small:
  fixes a :: ulong
  assumes "unat a < 2 ^ 63"
  shows "sint a = int (unat a)"
proof -
  have "int (unat a) < 2 ^ 63"
    using assms by (simp only: of_nat_less_numeral_power_cancel_iff)
  then have u: "uint a < 2 ^ 63"
    by (simp only: uint_nat)
  have "sint a = signed_take_bit 63 (uint a)"
    by (simp add: sint_uint)
  also have "\<dots> = uint a"
  proof (rule signed_take_bit_int_eq_self)
    have "0 \<le> uint a" by simp
    then show "- (2 ^ 63) \<le> uint a" by (rule order_trans [rotated]) simp
    show "uint a < 2 ^ 63" by (rule u)
  qed
  finally show ?thesis by (simp only: uint_nat)
qed

lemma time_after_unat:
  assumes "unat a < 2 ^ 63" "unat b < 2 ^ 63"
  shows "time_after a b \<longleftrightarrow> unat b < unat a"
proof -
  have ia: "int (unat a) < 2 ^ 63" and ib: "int (unat b) < 2 ^ 63"
    using assms by (simp_all only: of_nat_less_numeral_power_cancel_iff)
  have "sint (b - a) = signed_take_bit 63 (sint b - sint a)"
    by (simp add: sint_word_diff)
  also have "\<dots> = signed_take_bit 63 (int (unat b) - int (unat a))"
    by (simp only: sint_small [OF assms(1)] sint_small [OF assms(2)])
  also have "\<dots> = int (unat b) - int (unat a)"
  proof (rule signed_take_bit_int_eq_self)
    show "- (2 ^ 63) \<le> int (unat b) - int (unat a)" using ia by linarith
    show "int (unat b) - int (unat a) < 2 ^ 63" using ib by linarith
  qed
  finally have "sint (b - a) = int (unat b) - int (unat a)" .
  then show ?thesis
    by (simp only: time_after_def) linarith
qed

subsection \<open>Steps and reachable states\<close>

lemma fold_set_cpu:
  "fold set_cpu xs s =
     s\<lparr>sync_info := (\<lambda>j. if j \<in> set xs then (sync_info s j)\<lparr>cpu := int j\<rparr>
                          else sync_info s j)\<rparr>"
proof (induction xs arbitrary: s)
  case Nil
  show ?case by simp
next
  case (Cons x xs)
  have "fold set_cpu (x # xs) s = fold set_cpu xs (set_cpu x s)"
    by simp
  also have "\<dots> = (set_cpu x s)\<lparr>sync_info :=
      (\<lambda>j. if j \<in> set xs then (sync_info (set_cpu x s) j)\<lparr>cpu := int j\<rparr>
            else sync_info (set_cpu x s) j)\<rparr>"
    by (rule Cons.IH)
  also have "\<dots> = s\<lparr>sync_info :=
      (\<lambda>j. if j \<in> set (x # xs) then (sync_info s j)\<lparr>cpu := int j\<rparr>
            else sync_info s j)\<rparr>"
    by (auto simp: set_cpu_def fun_eq_iff)
  finally show ?case .
qed

lemma cpu_boost_init_eq:
  "cpu_boost_init wq nb_ret ih_ret s =
     (if \<not> wq then (- EFAULT, s\<lparr>cpu_boost_wq := False\<rparr>)
      else (ih_ret,
            s\<lparr>sync_info := (\<lambda>j. if j \<in> set (cpu_possible_mask s)
                                 then (sync_info s j)\<lparr>cpu := int j\<rparr> else sync_info s j),
              cpu_boost_wq := True,
              input_boost_work := False,
              input_boost_rem := None,
              boost_adjust_nb := (nb_ret = 0 \<or> boost_adjust_nb s),
              cpuboost_input_handler := (ih_ret = 0 \<or> cpuboost_input_handler s)\<rparr>))"
  by (simp add: cpu_boost_init_def Let_def fold_set_cpu cpufreq_register_notifier_def
      input_register_handler_def cong: if_cong)

lemmas op_eqs =
  cpuboost_input_event_def mdss_boost_kick_def input_boost_max_kick_def
  run_input_boost_work_def run_input_boost_rem_def work_pending_def queue_work_def
  do_input_boost_eq do_input_boost_max_eq do_input_boost_rem_eq Let_def

lemma step_masks:
  "cpu_possible_mask (step e s) = cpu_possible_mask s \<and>
   cpu_online_mask (step e s) = cpu_online_mask s"
  by (cases e) (simp_all add: op_eqs split: option.split)

lemma step_floor:
  "boost_floor (step e s) i = boost_floor s i
   \<or> boost_floor (step e s) i \<in> {0, IB_FREQ_MIN, IB_FREQ_MAX, UINT_MAX}"
  by (cases e) (simp_all add: op_eqs boost_floor_def split: option.split)

lemma step_expiry_iff:
  assumes "cpu_possible_mask s \<noteq> []"
    and "(input_boost_rem s \<noteq> None) = (\<exists>i\<in>set (cpu_possible_mask s). boost_floor s i \<noteq> 0)"
  shows "(input_boost_rem (step e s) \<noteq> None) =
         (\<exists>i\<in>set (cpu_possible_mask (step e s)). boost_floor (step e s) i \<noteq> 0)"
proof -
  have ne: "\<exists>i. i \<in> set (cpu_possible_mask s)"
    using assms(1) by (cases "cpu_possible_mask s") auto
  have c: "IB_FREQ_MIN \<noteq> 0" "IB_FREQ_MAX \<noteq> 0" "UINT_MAX \<noteq> 0"
    by (simp_all add: IB_FREQ_MIN_def IB_FREQ_MAX_def UINT_MAX_def)
  show ?thesis
  proof (cases e)
    case (Input_event now)
    then show ?thesis using assms(2) by (simp add: op_eqs boost_floor_def)
  next
    case (Mdss_kick now)
    then show ?thesis using assms(2) by (simp add: op_eqs boost_floor_def)
  next
    case (Max_kick now d)
    then show ?thesis using ne c by (simp add: op_eqs boost_floor_def)
  next
    case (Run_boost now)
    then show ?thesis using assms(2) ne c by (simp add: op_eqs boost_floor_def)
  next
    case (Run_rem now)
    then show ?thesis using assms(2) by (auto simp: op_eqs boost_floor_def split: option.split)
  qed
qed

lemma step_max_unbounded:
  assumes "max_boost_active s \<longrightarrow> (\<forall>i\<in>set (cpu_possible_mask s). boost_floor s i = UINT_MAX)"
  shows "max_boost_active (step e s) \<longrightarrow>
         (\<forall>i\<in>set (cpu_possible_mask (step e s)). boost_floor (step e s) i = UINT_MAX)"
  using assms by (cases e) (simp_all add: op_eqs boost_floor_def split: option.split)

lemma reachable_masks:
  "reachable P Q s \<Longrightarrow> cpu_possible_mask s = P \<and> cpu_online_mask s = Q"
proof (induction rule: reachable.induct)
  case (reachable_init wq nb_ret ih_ret)
  show ?case by (simp add: cpu_boost_init_eq initial_def)
next
  case (reachable_step s e)
  then show ?case by (simp add: step_masks)
qed

lemma reachable_floor:
  "reachable P Q s \<Longrightarrow> boost_floor s i \<in> {0, IB_FREQ_MIN, IB_FREQ_MAX, UINT_MAX}"
proof (induction rule: reachable.induct)
  case (reachable_init wq nb_ret ih_ret)
  show ?case by (simp add: cpu_boost_init_eq initial_def boost_floor_def)
next
  case (reachable_step s e)
  then show ?case using step_floor [of e s i] by auto
qed

lemma reachable_expiry_iff:
  assumes "reachable P Q s" and "P \<noteq> []"
  shows "(input_boost_rem s \<noteq> None) = (\<exists>i\<in>set P. boost_floor s i \<noteq> 0)"
  using assms
proof (induction rule: reachable.induct)
  case (reachable_init wq nb_ret ih_ret)
  show ?case by (simp add: cpu_boost_init_eq initial_def boost_floor_def)
next
  case (reachable_step s e)
  have m: "cpu_possible_mask s = P"
    using reachable_step.hyps by (simp add: reachable_masks)
  have "(input_boost_rem (step e s) \<noteq> None) =
         (\<exists>i\<in>set (cpu_possible_mask (step e s)). boost_floor (step e s) i \<noteq> 0)"
    by (rule step_expiry_iff) (use reachable_step m in simp_all)
  then show ?case by (simp add: step_masks m)
qed

lemma reachable_max_unbounded:
  assumes "reachable P Q s"
  shows "max_boost_active s \<longrightarrow> (\<forall>i\<in>set P. boost_floor s i = UINT_MAX)"
  using assms
proof (induction rule: reachable.induct)
  case (reachable_init wq nb_ret ih_ret)
  show ?case by (simp add: cpu_boost_init_eq initial_def boost_floor_def)
next
  case (reachable_step s e)
  have m: "cpu_possible_mask s = P"
    using reachable_step.hyps by (simp add: reachable_masks)
  have "max_boost_active (step e s) \<longrightarrow>
         (\<forall>i\<in>set (cpu_possible_mask (step e s)). boost_floor (step e s) i = UINT_MAX)"
    by (rule step_max_unbounded) (use reachable_step m in simp)
  then show ?case by (simp add: step_masks m)
qed

subsection \<open>Concrete runs and the staleness window\<close>

lemmas run_eqs = booted_def cpu_boost_init_eq initial_def op_eqs

lemma reachable_booted: "reachable [0, 1, 2, 3, 4, 5] [0, 1, 2, 3, 4, 5] booted"
  unfolding booted_def by (rule reachable_init) (simp add: cpu_boost_init_eq)

lemma msecs_MDSS_TIMEOUT: "msecs_to_jiffies MDSS_TIMEOUT = 5000"
  by (simp add: msecs_to_jiffies_def MDSS_TIMEOUT_def)

lemma stale_unat:
  assumes "unat t + 5000 < unat now" and "unat now < 2 ^ 63"
  shows "time_after now (t + 5000)"
proof -
  have b: "unat t + unat (5000 :: ulong) < 2 ^ LENGTH(64)"
    using assms by simp
  have u: "unat (t + 5000) = unat t + 5000"
    using b by (simp only: unat_add_lem [THEN iffD1]) simp
  have "unat (t + 5000) < 2 ^ 63"
    using assms u by simp
  then show ?thesis
    using assms u by (simp add: time_after_unat)
qed

lemma fresh_unat:
  assumes "unat now \<le> unat t + 5000" and "unat t + 5000 < 2 ^ 63"
  shows "\<not> time_after now (t + 5000)"
proof -
  have b: "unat t + unat (5000 :: ulong) < 2 ^ LENGTH(64)"
    using assms by simp
  have u: "unat (t + 5000) = unat t + 5000"
    using b by (simp only: unat_add_lem [THEN iffD1]) simp
  have "unat (t + 5000) < 2 ^ 63" "unat now < 2 ^ 63"
    using assms u by simp_all
  then show ?thesis
    using assms u by (simp add: time_after_unat)
qed


section \<open>The claims\<close>

text \<open>
  Claim C1. When the hook \<^verbatim>\<open>boost_adjust_notify\<close> is called with the event
  \<^verbatim>\<open>CPUFREQ_ADJUST\<close> and proposed limits for a CPU: if the boost floor of that
  CPU is 0 the limits come back unchanged; otherwise the maximum is kept and the
  proposed minimum is raised to \<open>min (if floor = UINT_MAX then max else floor) max\<close>
  and never exceeds the maximum. With floor 0 the proposal (300000, 2000000) comes back
  as it is, and with floor 1113600 it comes back as (1113600, 2000000).
\<close>

theorem boost_adjust_notify_clamps_min:
  "(input_boost_min (sync (pol_cpu p)) = 0 \<longrightarrow>
      boost_adjust_notify sync CPUFREQ_ADJUST p = (NOTIFY_OK, p))
   \<and> (input_boost_min (sync (pol_cpu p)) \<noteq> 0 \<longrightarrow>
      boost_adjust_notify sync CPUFREQ_ADJUST p =
        (NOTIFY_OK,
         p\<lparr>pol_min :=
             min (max (pol_min p)
                      (min (if input_boost_min (sync (pol_cpu p)) = UINT_MAX then pol_max p
                            else input_boost_min (sync (pol_cpu p)))
                           (pol_max p)))
                 (pol_max p)\<rparr>))
   \<and> boost_adjust_notify (\<lambda>c. \<lparr>cpu = int c, input_boost_min = 0\<rparr>) CPUFREQ_ADJUST
         \<lparr>pol_cpu = 0, pol_min = 300000, pol_max = 2000000\<rparr> =
       (NOTIFY_OK, \<lparr>pol_cpu = 0, pol_min = 300000, pol_max = 2000000\<rparr>)
   \<and> boost_adjust_notify (\<lambda>c. \<lparr>cpu = int c, input_boost_min = 1113600\<rparr>) CPUFREQ_ADJUST
         \<lparr>pol_cpu = 0, pol_min = 300000, pol_max = 2000000\<rparr> =
       (NOTIFY_OK, \<lparr>pol_cpu = 0, pol_min = 1113600, pol_max = 2000000\<rparr>)"
proof (intro conjI impI)
  assume "input_boost_min (sync (pol_cpu p)) = 0"
  then show "boost_adjust_notify sync CPUFREQ_ADJUST p = (NOTIFY_OK, p)"
    by (simp add: boost_adjust_notify_def)
next
  assume "input_boost_min (sync (pol_cpu p)) \<noteq> 0"
  then show "boost_adjust_notify sync CPUFREQ_ADJUST p =
        (NOTIFY_OK,
         p\<lparr>pol_min :=
             min (max (pol_min p)
                      (min (if input_boost_min (sync (pol_cpu p)) = UINT_MAX then pol_max p
                            else input_boost_min (sync (pol_cpu p)))
                           (pol_max p)))
                 (pol_max p)\<rparr>)"
    by (simp add: boost_adjust_notify_def Let_def cpufreq_verify_within_limits_floor)
next
  show "boost_adjust_notify (\<lambda>c. \<lparr>cpu = int c, input_boost_min = 0\<rparr>) CPUFREQ_ADJUST
         \<lparr>pol_cpu = 0, pol_min = 300000, pol_max = 2000000\<rparr> =
       (NOTIFY_OK, \<lparr>pol_cpu = 0, pol_min = 300000, pol_max = 2000000\<rparr>)"
    by (simp add: boost_adjust_notify_def)
next
  show "boost_adjust_notify (\<lambda>c. \<lparr>cpu = int c, input_boost_min = 1113600\<rparr>) CPUFREQ_ADJUST
         \<lparr>pol_cpu = 0, pol_min = 300000, pol_max = 2000000\<rparr> =
       (NOTIFY_OK, \<lparr>pol_cpu = 0, pol_min = 1113600, pol_max = 2000000\<rparr>)"
    by (simp add: boost_adjust_notify_def Let_def cpufreq_verify_within_limits_def UINT_MAX_def)
qed

text \<open>
  The same at three more inputs: floor 0, the unbounded floor, and a floor above the
  proposed maximum.
\<close>

theorem boost_adjust_notify_clamps_min_witness:
  "boost_adjust_notify (\<lambda>c. \<lparr>cpu = int c, input_boost_min = 0\<rparr>) CPUFREQ_ADJUST
     \<lparr>pol_cpu = 2, pol_min = 633600, pol_max = 1804800\<rparr> =
     (NOTIFY_OK, \<lparr>pol_cpu = 2, pol_min = 633600, pol_max = 1804800\<rparr>)
   \<and> boost_adjust_notify (\<lambda>c. \<lparr>cpu = int c, input_boost_min = UINT_MAX\<rparr>) CPUFREQ_ADJUST
     \<lparr>pol_cpu = 2, pol_min = 633600, pol_max = 1804800\<rparr> =
     (NOTIFY_OK, \<lparr>pol_cpu = 2, pol_min = 1804800, pol_max = 1804800\<rparr>)
   \<and> boost_adjust_notify (\<lambda>c. \<lparr>cpu = int c, input_boost_min = 1113600\<rparr>) CPUFREQ_ADJUST
     \<lparr>pol_cpu = 2, pol_min = 633600, pol_max = 902400\<rparr> =
     (NOTIFY_OK, \<lparr>pol_cpu = 2, pol_min = 902400, pol_max = 902400\<rparr>)"
  using
    boost_adjust_notify_clamps_min [of "\<lambda>c. \<lparr>cpu = int c, input_boost_min = 0\<rparr>"
      "\<lparr>pol_cpu = 2, pol_min = 633600, pol_max = 1804800\<rparr>"]
    boost_adjust_notify_clamps_min [of "\<lambda>c. \<lparr>cpu = int c, input_boost_min = UINT_MAX\<rparr>"
      "\<lparr>pol_cpu = 2, pol_min = 633600, pol_max = 1804800\<rparr>"]
    boost_adjust_notify_clamps_min [of "\<lambda>c. \<lparr>cpu = int c, input_boost_min = 1113600\<rparr>"
      "\<lparr>pol_cpu = 2, pol_min = 633600, pol_max = 902400\<rparr>"]
  by (simp add: UINT_MAX_def)

text \<open>
  Claim C2. In every state reachable from the state after initialization by input
  events, kicks, strong-boost requests and the worker running \<^verbatim>\<open>do_input_boost\<close>
  and \<^verbatim>\<open>do_input_boost_rem\<close>, each one atomic step, on a machine with at least one
  possible CPU: the expiry task is pending if and only if some CPU has a non-zero
  boost floor, and whenever \<open>max_boost_active\<close> holds every CPU's floor is
  \<open>UINT_MAX\<close>.
\<close>

theorem expiry_pending_iff_boosted:
  assumes "reachable P Q s" and "P \<noteq> []"
  shows "(input_boost_rem s \<noteq> None \<longleftrightarrow> (\<exists>i\<in>set P. boost_floor s i \<noteq> 0))
         \<and> (max_boost_active s \<longrightarrow> (\<forall>i\<in>set P. boost_floor s i = UINT_MAX))"
  using reachable_expiry_iff [OF assms] reachable_max_unbounded [OF assms(1)] by simp

text \<open>On six CPUs, in the state after a strong-boost request.\<close>

theorem expiry_pending_iff_boosted_witness:
  "reachable [0, 1, 2, 3, 4, 5] [0, 1, 2, 3, 4, 5] (step (Max_kick 1 5000) booted)
   \<and> [0, 1, 2, 3, 4, 5] \<noteq> ([] :: nat list)
   \<and> max_boost_active (step (Max_kick 1 5000) booted)
   \<and> input_boost_rem (step (Max_kick 1 5000) booted) \<noteq> None
   \<and> (\<exists>i\<in>set [0, 1, 2, 3, 4, 5]. boost_floor (step (Max_kick 1 5000) booted) i \<noteq> 0)
   \<and> map (boost_floor (step (Max_kick 1 5000) booted)) [0, 1, 2, 3, 4, 5] =
       [UINT_MAX, UINT_MAX, UINT_MAX, UINT_MAX, UINT_MAX, UINT_MAX]"
proof -
  have r: "reachable [0, 1, 2, 3, 4, 5] [0, 1, 2, 3, 4, 5] (step (Max_kick 1 5000) booted)"
    by (rule reachable_step) (rule reachable_booted)
  have n: "[0, 1, 2, 3, 4, 5] \<noteq> ([] :: nat list)"
    by simp
  have m: "max_boost_active (step (Max_kick 1 5000) booted)"
    "input_boost_rem (step (Max_kick 1 5000) booted) \<noteq> None"
    by (simp_all add: run_eqs)
  show ?thesis
    using expiry_pending_iff_boosted [OF r n] r m by simp
qed

text \<open>
  Claim C3. From every state and for every duration \<open>d\<close>, a strong-boost request
  (\<^verbatim>\<open>do_input_boost_max\<close>, and \<^verbatim>\<open>input_boost_max_kick\<close> which calls it) takes
  effect: whatever expiry was pending is replaced by one at \<open>now + d\<close>, every possible
  CPU's floor becomes \<open>UINT_MAX\<close>, the policy of every online CPU is re-evaluated, and
  \<open>max_boost_active\<close> is set. Nothing in the prior state suppresses it.
\<close>

theorem strong_boost_always_takes_effect:
  "(\<forall>i\<in>set (cpu_possible_mask s).
      boost_floor (do_input_boost_max now d s) i = UINT_MAX)
   \<and> input_boost_rem (do_input_boost_max now d s) = Some (now + msecs_to_jiffies d)
   \<and> policy_updates (do_input_boost_max now d s) = policy_updates s @ cpu_online_mask s
   \<and> max_boost_active (do_input_boost_max now d s)
   \<and> (\<forall>i\<in>set (cpu_possible_mask s).
      boost_floor (input_boost_max_kick now d s) i = UINT_MAX)
   \<and> input_boost_rem (input_boost_max_kick now d s) = Some (now + msecs_to_jiffies d)
   \<and> policy_updates (input_boost_max_kick now d s) = policy_updates s @ cpu_online_mask s
   \<and> max_boost_active (input_boost_max_kick now d s)"
  by (simp add: input_boost_max_kick_def do_input_boost_max_eq boost_floor_def Let_def
      cong: if_cong)

text \<open>On six CPUs, while a weak activation is pending.\<close>

theorem strong_boost_always_takes_effect_witness:
  "input_boost_work (cpuboost_input_event 0 booted)
   \<and> map (boost_floor (input_boost_max_kick 1 5000 (cpuboost_input_event 0 booted)))
         [0, 1, 2, 3, 4, 5] =
       [UINT_MAX, UINT_MAX, UINT_MAX, UINT_MAX, UINT_MAX, UINT_MAX]
   \<and> input_boost_rem (input_boost_max_kick 1 5000 (cpuboost_input_event 0 booted)) = Some 5001
   \<and> policy_updates (input_boost_max_kick 1 5000 (cpuboost_input_event 0 booted)) =
       [0, 1, 2, 3, 4, 5]
   \<and> max_boost_active (input_boost_max_kick 1 5000 (cpuboost_input_event 0 booted))"
proof -
  have s: "cpu_possible_mask (cpuboost_input_event 0 booted) = [0, 1, 2, 3, 4, 5]"
    "cpu_online_mask (cpuboost_input_event 0 booted) = [0, 1, 2, 3, 4, 5]"
    "policy_updates (cpuboost_input_event 0 booted) = []"
    "input_boost_work (cpuboost_input_event 0 booted)"
    by (simp_all add: run_eqs)
  have d: "(1 :: ulong) + msecs_to_jiffies 5000 = 5001"
    by (simp add: msecs_to_jiffies_def)
  note t = strong_boost_always_takes_effect [of "cpuboost_input_event 0 booted" 1 5000]
  show ?thesis
    using t s(4) unfolding s(1-3) d by simp
qed

text \<open>
  Claim C4, as stated, fails on the code. An input event at tick 20 that finds the
  activation of the event at tick 10 still pending is dropped, yet the timestamp
  becomes 20; and a kick at tick 1000 that is accepted (it queues the activation)
  leaves the timestamp at 10.
\<close>

theorem last_input_time_not_last_accepted:
  "work_pending (cpuboost_input_event 10 booted)
   \<and> last_input_time (cpuboost_input_event 10 booted) = 10
   \<and> cpuboost_input_event 20 (cpuboost_input_event 10 booted) =
       (cpuboost_input_event 10 booted)\<lparr>last_input_time := 20\<rparr>
   \<and> last_input_time (cpuboost_input_event 20 (cpuboost_input_event 10 booted)) = 20
   \<and> \<not> work_pending (run_input_boost_work 30 (cpuboost_input_event 10 booted))
   \<and> \<not> time_after 1000
         (last_input_time (run_input_boost_work 30 (cpuboost_input_event 10 booted))
          + msecs_to_jiffies MDSS_TIMEOUT)
   \<and> work_pending (mdss_boost_kick 1000
         (run_input_boost_work 30 (cpuboost_input_event 10 booted)))
   \<and> last_input_time (mdss_boost_kick 1000
         (run_input_boost_work 30 (cpuboost_input_event 10 booted))) = 10"
  by (simp add: run_eqs msecs_MDSS_TIMEOUT time_after_def)

text \<open>
  Claim C4, amended. \<open>last_input_time\<close> is the time of the most recent input event,
  whether that event queued an activation or was dropped: \<^verbatim>\<open>cpuboost_input_event\<close>
  always records \<open>now\<close>, and neither a kick (accepted or dropped), nor a strong-boost
  request, nor the worker changes it. So after any run the timestamp is that of the
  last input event of the run.
\<close>

theorem last_input_time_is_last_input_event:
  "last_input_time (cpuboost_input_event now s) = now
   \<and> last_input_time (mdss_boost_kick now s) = last_input_time s
   \<and> last_input_time (input_boost_max_kick now d s) = last_input_time s
   \<and> last_input_time (run_input_boost_work now s) = last_input_time s
   \<and> last_input_time (run_input_boost_rem now s) = last_input_time s
   \<and> last_input_time (fold step es s) = fold stamp es (last_input_time s)"
proof -
  have st: "last_input_time (step e t) = stamp e (last_input_time t)" for e t
    by (cases e) (simp_all add: op_eqs split: option.split)
  have "last_input_time (fold step es s) = fold stamp es (last_input_time s)"
    by (induction es arbitrary: s) (simp_all add: st)
  then show ?thesis
    using st [of "Input_event now" s] st [of "Mdss_kick now" s] st [of "Max_kick now d" s]
      st [of "Run_boost now" s] st [of "Run_rem now" s]
    by simp
qed

text \<open>On a run with two input events, an activation and a kick.\<close>

theorem last_input_time_is_last_input_event_witness:
  "last_input_time
     (fold step [Input_event 10, Input_event 20, Run_boost 30, Mdss_kick 1000] booted) = 20"
  using last_input_time_is_last_input_event
    [of 0 booted 0 "[Input_event 10, Input_event 20, Run_boost 30, Mdss_kick 1000]"]
  by simp

text \<open>
  Claim C5, as stated, fails on the code. With the activation of the input event at
  tick 0 pending, the input event at tick 1000 changes \<open>last_input_time\<close>.
\<close>

theorem pending_weak_trigger_changes_timestamp:
  "input_boost_work (cpuboost_input_event 0 booted)
   \<and> last_input_time (cpuboost_input_event 1000 (cpuboost_input_event 0 booted))
       \<noteq> last_input_time (cpuboost_input_event 0 booted)"
  by (simp add: run_eqs)

text \<open>
  Claim C5, amended. While an activation is pending, a further weak trigger queues
  nothing more: a kick leaves the whole state as it was, and an input event changes
  \<open>last_input_time\<close> to \<open>now\<close> and nothing else, so that boost floors,
  \<open>max_boost_active\<close> and the scheduled expiry are exactly as before.
\<close>

theorem pending_weak_trigger_dropped:
  assumes "input_boost_work s"
  shows "mdss_boost_kick now s = s
         \<and> cpuboost_input_event now s = s\<lparr>last_input_time := now\<rparr>"
  using assms by (simp add: mdss_boost_kick_def cpuboost_input_event_def work_pending_def)

text \<open>On six CPUs, with the activation of an input event at tick 0 pending.\<close>

theorem pending_weak_trigger_dropped_witness:
  "input_boost_work (cpuboost_input_event 0 booted)
   \<and> mdss_boost_kick 1000 (cpuboost_input_event 0 booted) = cpuboost_input_event 0 booted
   \<and> cpuboost_input_event 1000 (cpuboost_input_event 0 booted) =
       (cpuboost_input_event 0 booted)\<lparr>last_input_time := 1000\<rparr>"
proof -
  have p: "input_boost_work (cpuboost_input_event 0 booted)"
    by (simp add: run_eqs)
  show ?thesis
    using pending_weak_trigger_dropped [OF p, of 1000] p by simp
qed

text \<open>
  Claim C6, as stated, fails on the code: the window is not measured from the most
  recent accepted trigger. First run: input events at ticks 10 and 20, the second
  dropped because the activation of the first is pending, and the activation run at
  tick 30. The last accepted trigger is that of tick 10, and tick 5015 is after
  10 + 5000, yet the kick at tick 5015 is accepted: it queues the activation. Second
  run: an input event at tick 0 and its activation, then a kick at tick 4000 that is
  accepted and whose activation runs at tick 4001. Tick 8000 is within 5000 ms of
  that accepted kick and no activation is pending, yet the kick at tick 8000 is
  dropped.
\<close>

theorem mdss_boost_kick_window_not_from_accepted:
  "work_pending (cpuboost_input_event 10 booted)
   \<and> cpuboost_input_event 20 (cpuboost_input_event 10 booted) =
       (cpuboost_input_event 10 booted)\<lparr>last_input_time := 20\<rparr>
   \<and> \<not> work_pending
         (run_input_boost_work 30 (cpuboost_input_event 20 (cpuboost_input_event 10 booted)))
   \<and> time_after 5015 (10 + msecs_to_jiffies MDSS_TIMEOUT)
   \<and> work_pending (mdss_boost_kick 5015
         (run_input_boost_work 30 (cpuboost_input_event 20 (cpuboost_input_event 10 booted))))
   \<and> \<not> work_pending (run_input_boost_work 1 (cpuboost_input_event 0 booted))
   \<and> work_pending (mdss_boost_kick 4000
         (run_input_boost_work 1 (cpuboost_input_event 0 booted)))
   \<and> \<not> work_pending (run_input_boost_work 4001 (mdss_boost_kick 4000
         (run_input_boost_work 1 (cpuboost_input_event 0 booted))))
   \<and> \<not> time_after 8000 (4000 + msecs_to_jiffies MDSS_TIMEOUT)
   \<and> mdss_boost_kick 8000 (run_input_boost_work 4001 (mdss_boost_kick 4000
         (run_input_boost_work 1 (cpuboost_input_event 0 booted)))) =
       run_input_boost_work 4001 (mdss_boost_kick 4000
         (run_input_boost_work 1 (cpuboost_input_event 0 booted)))"
  by (simp add: run_eqs msecs_MDSS_TIMEOUT time_after_def cong: if_cong)

text \<open>
  Claim C6, amended. The staleness window of a kick (\<^verbatim>\<open>mdss_boost_kick\<close>) is
  measured from \<open>last_input_time\<close>, the time of the most recent input event whether
  that event was accepted or dropped; a kick, accepted or not, never moves it. A kick
  that comes after \<open>last_input_time\<close> plus 5000 ms is dropped and changes nothing, so
  no activation is queued; in particular a kick at tick 6000 with
  \<open>last_input_time = 0\<close>. A kick within that window, with no activation pending,
  queues the activation (and sets \<open>st_cpu_bias\<close>). "After" is the wrapping comparison
  \<^verbatim>\<open>time_after\<close>; away from the wrap-around it is the comparison of the tick
  counts.
\<close>

theorem mdss_boost_kick_staleness:
  "(time_after now (last_input_time s + msecs_to_jiffies MDSS_TIMEOUT) \<longrightarrow>
      mdss_boost_kick now s = s)
   \<and> (unat (last_input_time s) + 5000 < unat now \<and> unat now < 2 ^ 63 \<longrightarrow>
      mdss_boost_kick now s = s)
   \<and> (last_input_time s = 0 \<longrightarrow> mdss_boost_kick 6000 s = s)
   \<and> (\<not> time_after now (last_input_time s + msecs_to_jiffies MDSS_TIMEOUT)
       \<and> \<not> input_boost_work s \<longrightarrow>
      mdss_boost_kick now s = s\<lparr>st_cpu_bias := True, input_boost_work := True\<rparr>)
   \<and> (unat now \<le> unat (last_input_time s) + 5000
       \<and> unat (last_input_time s) + 5000 < 2 ^ 63 \<and> \<not> input_boost_work s \<longrightarrow>
      mdss_boost_kick now s = s\<lparr>st_cpu_bias := True, input_boost_work := True\<rparr>)
   \<and> last_input_time (mdss_boost_kick now s) = last_input_time s"
proof (intro conjI impI)
  assume "time_after now (last_input_time s + msecs_to_jiffies MDSS_TIMEOUT)"
  then show "mdss_boost_kick now s = s"
    by (simp add: mdss_boost_kick_def)
next
  assume "unat (last_input_time s) + 5000 < unat now \<and> unat now < 2 ^ 63"
  then have "time_after now (last_input_time s + 5000)"
    by (simp add: stale_unat)
  then show "mdss_boost_kick now s = s"
    by (simp add: mdss_boost_kick_def msecs_MDSS_TIMEOUT)
next
  assume "last_input_time s = 0"
  then show "mdss_boost_kick 6000 s = s"
    by (simp add: mdss_boost_kick_def msecs_MDSS_TIMEOUT time_after_def)
next
  assume "\<not> time_after now (last_input_time s + msecs_to_jiffies MDSS_TIMEOUT)
       \<and> \<not> input_boost_work s"
  then show "mdss_boost_kick now s = s\<lparr>st_cpu_bias := True, input_boost_work := True\<rparr>"
    by (cases "st_cpu_bias s")
      (simp_all add: mdss_boost_kick_def work_pending_def queue_work_def Let_def)
next
  assume a: "unat now \<le> unat (last_input_time s) + 5000
       \<and> unat (last_input_time s) + 5000 < 2 ^ 63 \<and> \<not> input_boost_work s"
  then have "\<not> time_after now (last_input_time s + 5000)"
    by (simp add: fresh_unat)
  then show "mdss_boost_kick now s = s\<lparr>st_cpu_bias := True, input_boost_work := True\<rparr>"
    using a
    by (cases "st_cpu_bias s")
      (simp_all add: mdss_boost_kick_def work_pending_def queue_work_def Let_def
        msecs_MDSS_TIMEOUT)
next
  show "last_input_time (mdss_boost_kick now s) = last_input_time s"
    by (simp add: mdss_boost_kick_def queue_work_def Let_def)
qed

text \<open>On six CPUs after initialization: a kick at tick 6000 and a kick at tick 1000.\<close>

theorem mdss_boost_kick_staleness_witness:
  "last_input_time booted = 0
   \<and> time_after 6000 (last_input_time booted + msecs_to_jiffies MDSS_TIMEOUT)
   \<and> mdss_boost_kick 6000 booted = booted
   \<and> \<not> time_after 1000 (last_input_time booted + msecs_to_jiffies MDSS_TIMEOUT)
   \<and> \<not> input_boost_work booted
   \<and> mdss_boost_kick 1000 booted = booted\<lparr>st_cpu_bias := True, input_boost_work := True\<rparr>"
proof -
  have b: "last_input_time booted = 0" "\<not> input_boost_work booted"
    by (simp_all add: run_eqs)
  have t: "time_after 6000 (last_input_time booted + msecs_to_jiffies MDSS_TIMEOUT)"
    "\<not> time_after 1000 (last_input_time booted + msecs_to_jiffies MDSS_TIMEOUT)"
    by (simp_all add: b msecs_MDSS_TIMEOUT time_after_def)
  show ?thesis
    using mdss_boost_kick_staleness [of 6000 booted] mdss_boost_kick_staleness [of 1000 booted]
      b t
    by simp
qed

text \<open>
  Claim C7. The expiry task \<^verbatim>\<open>do_input_boost_rem\<close> sets the boost floor of every
  possible CPU (online or not) to 0, re-evaluates the policy of every online CPU and
  leaves \<open>max_boost_active\<close> false, whatever boost was in effect; the same holds when
  the worker runs it for an expiry that is due, after which no expiry is pending.
\<close>

theorem expiry_resets_every_floor:
  "(\<forall>i\<in>set (cpu_possible_mask s). boost_floor (do_input_boost_rem s) i = 0)
   \<and> policy_updates (do_input_boost_rem s) = policy_updates s @ cpu_online_mask s
   \<and> \<not> max_boost_active (do_input_boost_rem s)
   \<and> (input_boost_rem s = Some t \<and> time_after_eq now t \<longrightarrow>
        (\<forall>i\<in>set (cpu_possible_mask s). boost_floor (run_input_boost_rem now s) i = 0)
        \<and> policy_updates (run_input_boost_rem now s) = policy_updates s @ cpu_online_mask s
        \<and> \<not> max_boost_active (run_input_boost_rem now s)
        \<and> input_boost_rem (run_input_boost_rem now s) = None)"
  by (simp add: run_input_boost_rem_def do_input_boost_rem_eq boost_floor_def)

text \<open>
  On six CPUs of which two are online, when the expiry of a strong boost is due.
\<close>

theorem expiry_resets_every_floor_witness:
  "input_boost_rem strong_two_online = Some 5001
   \<and> time_after_eq 5001 5001
   \<and> max_boost_active strong_two_online
   \<and> map (boost_floor strong_two_online) [0, 1, 2, 3, 4, 5] =
       [UINT_MAX, UINT_MAX, UINT_MAX, UINT_MAX, UINT_MAX, UINT_MAX]
   \<and> map (boost_floor (run_input_boost_rem 5001 strong_two_online)) [0, 1, 2, 3, 4, 5] =
       [0, 0, 0, 0, 0, 0]
   \<and> policy_updates (run_input_boost_rem 5001 strong_two_online) =
       [0, 1, 2, 3, 4, 5, 0, 4]
   \<and> \<not> max_boost_active (run_input_boost_rem 5001 strong_two_online)
   \<and> input_boost_rem (run_input_boost_rem 5001 strong_two_online) = None"
proof -
  have s: "cpu_possible_mask strong_two_online = [0, 1, 2, 3, 4, 5]"
    "cpu_online_mask strong_two_online = [0, 4]"
    "policy_updates strong_two_online = [0, 1, 2, 3, 4, 5]"
    "input_boost_rem strong_two_online = Some 5001"
    "max_boost_active strong_two_online"
    "map (boost_floor strong_two_online) [0, 1, 2, 3, 4, 5] =
       [UINT_MAX, UINT_MAX, UINT_MAX, UINT_MAX, UINT_MAX, UINT_MAX]"
    by (simp_all add: strong_two_online_def run_eqs msecs_to_jiffies_def boost_floor_def)
  have t: "time_after_eq 5001 5001"
    by (simp add: time_after_eq_def)
  note r = expiry_resets_every_floor [of strong_two_online 5001 5001]
  show ?thesis
    using r s(4-6) t unfolding s(1-3) by simp
qed

text \<open>
  Claim C8. In every reachable state the boost floor of every CPU is 0, the low tier
  (1113600), the high tier (1113600) or \<open>UINT_MAX\<close>. The weak activation writes the
  low tier to the CPUs below 4 and the high tier to the others, the strong activation
  writes \<open>UINT_MAX\<close>, the expiry writes 0; nothing else writes a floor.
\<close>

theorem boost_floor_values:
  assumes "reachable P Q s"
  shows "boost_floor s i \<in> {0, IB_FREQ_MIN, IB_FREQ_MAX, UINT_MAX}
         \<and> IB_FREQ_MIN = 1113600 \<and> IB_FREQ_MAX = 1113600 \<and> UINT_MAX = - 1
         \<and> (\<not> max_boost_active s \<longrightarrow>
              (\<forall>j\<in>set P. boost_floor (do_input_boost now s) j =
                            (if j < 4 then IB_FREQ_MIN else IB_FREQ_MAX)))
         \<and> (\<forall>j\<in>set P. boost_floor (do_input_boost_max now d s) j = UINT_MAX)
         \<and> (\<forall>j\<in>set P. boost_floor (do_input_boost_rem s) j = 0)"
proof -
  have m: "cpu_possible_mask s = P"
    using assms by (simp add: reachable_masks)
  show ?thesis
    using reachable_floor [OF assms, of i] m
    by (simp add: do_input_boost_eq do_input_boost_max_eq do_input_boost_rem_eq
        boost_floor_def IB_FREQ_MIN_def IB_FREQ_MAX_def UINT_MAX_def)
qed

text \<open>On six CPUs, after an input event and its activation.\<close>

theorem boost_floor_values_witness:
  "reachable [0, 1, 2, 3, 4, 5] [0, 1, 2, 3, 4, 5] (step (Run_boost 1) (step (Input_event 0) booted))
   \<and> map (boost_floor (step (Run_boost 1) (step (Input_event 0) booted))) [0, 1, 2, 3, 4, 5, 6] =
       [1113600, 1113600, 1113600, 1113600, 1113600, 1113600, 0]
   \<and> boost_floor (step (Run_boost 1) (step (Input_event 0) booted)) 4
       \<in> {0, IB_FREQ_MIN, IB_FREQ_MAX, UINT_MAX}
   \<and> \<not> max_boost_active (step (Run_boost 1) (step (Input_event 0) booted))
   \<and> map (boost_floor (do_input_boost 2 (step (Run_boost 1) (step (Input_event 0) booted))))
         [0, 1, 2, 3, 4, 5] =
       [IB_FREQ_MIN, IB_FREQ_MIN, IB_FREQ_MIN, IB_FREQ_MIN, IB_FREQ_MAX, IB_FREQ_MAX]"
proof -
  have r: "reachable [0, 1, 2, 3, 4, 5] [0, 1, 2, 3, 4, 5]
             (step (Run_boost 1) (step (Input_event 0) booted))"
    by (intro reachable_step reachable_booted)
  have v: "map (boost_floor (step (Run_boost 1) (step (Input_event 0) booted)))
             [0, 1, 2, 3, 4, 5, 6] =
           [1113600, 1113600, 1113600, 1113600, 1113600, 1113600, 0]"
    "\<not> max_boost_active (step (Run_boost 1) (step (Input_event 0) booted))"
    by (simp_all add: run_eqs boost_floor_def IB_FREQ_MIN_def IB_FREQ_MAX_def)
  show ?thesis
    using boost_floor_values [OF r, of 4 2] r v by simp
qed

text \<open>
  Claim C9, as stated, fails on the code. When \<^verbatim>\<open>input_register_handler\<close> fails
  (here with -4), \<^verbatim>\<open>cpu_boost_init\<close> returns the failure while the cpufreq
  notifier it registered before is still registered.
\<close>

theorem cpu_boost_init_leaves_notifier:
  "fst (cpu_boost_init True 0 (- 4) (initial [0, 1, 2, 3, 4, 5] [0, 1, 2, 3, 4, 5])) \<noteq> 0
   \<and> boost_adjust_nb
       (snd (cpu_boost_init True 0 (- 4) (initial [0, 1, 2, 3, 4, 5] [0, 1, 2, 3, 4, 5])))"
  by (simp add: cpu_boost_init_eq initial_def)

text \<open>
  Claim C9, amended. \<^verbatim>\<open>cpu_boost_init\<close> fails only if the workqueue cannot be
  allocated or the input handler cannot be registered; it then returns a non-zero code
  and the input handler is not registered. When the workqueue cannot be allocated it
  returns \<open>- EFAULT\<close> and has registered nothing. When the input handler cannot be
  registered it returns the error of the registration; the function undoes nothing, so
  the workqueue stays allocated and the cpufreq notifier stays registered if its own
  registration succeeded.
\<close>

theorem cpu_boost_init_failure:
  "(\<not> wq \<longrightarrow>
      cpu_boost_init wq nb_ret ih_ret (initial P Q) = (- EFAULT, initial P Q) \<and> - EFAULT \<noteq> 0)
   \<and> (wq \<and> ih_ret \<noteq> 0 \<longrightarrow>
      fst (cpu_boost_init wq nb_ret ih_ret (initial P Q)) = ih_ret
      \<and> \<not> cpuboost_input_handler (snd (cpu_boost_init wq nb_ret ih_ret (initial P Q)))
      \<and> boost_adjust_nb (snd (cpu_boost_init wq nb_ret ih_ret (initial P Q))) = (nb_ret = 0)
      \<and> cpu_boost_wq (snd (cpu_boost_init wq nb_ret ih_ret (initial P Q))))
   \<and> (fst (cpu_boost_init wq nb_ret ih_ret (initial P Q)) \<noteq> 0 \<longrightarrow>
      (\<not> wq \<or> ih_ret \<noteq> 0)
      \<and> \<not> cpuboost_input_handler (snd (cpu_boost_init wq nb_ret ih_ret (initial P Q))))"
  by (simp add: cpu_boost_init_eq initial_def EFAULT_def)

text \<open>The two failures on six CPUs.\<close>

theorem cpu_boost_init_failure_witness:
  "cpu_boost_init False 0 0 (initial [0, 1, 2, 3, 4, 5] [0, 1, 2, 3, 4, 5]) =
     (- 14, initial [0, 1, 2, 3, 4, 5] [0, 1, 2, 3, 4, 5])
   \<and> fst (cpu_boost_init True 0 (- 4) (initial [0, 1, 2, 3, 4, 5] [0, 1, 2, 3, 4, 5])) = - 4
   \<and> \<not> cpuboost_input_handler
        (snd (cpu_boost_init True 0 (- 4) (initial [0, 1, 2, 3, 4, 5] [0, 1, 2, 3, 4, 5])))
   \<and> boost_adjust_nb
        (snd (cpu_boost_init True 0 (- 4) (initial [0, 1, 2, 3, 4, 5] [0, 1, 2, 3, 4, 5])))
   \<and> cpu_boost_wq
        (snd (cpu_boost_init True 0 (- 4) (initial [0, 1, 2, 3, 4, 5] [0, 1, 2, 3, 4, 5])))"
  using
    cpu_boost_init_failure [of False 0 0 "[0, 1, 2, 3, 4, 5]" "[0, 1, 2, 3, 4, 5]"]
    cpu_boost_init_failure [of True 0 "- 4" "[0, 1, 2, 3, 4, 5]" "[0, 1, 2, 3, 4, 5]"]
  by (simp add: EFAULT_def)

text \<open>
  Claim C10, as stated, fails on the code: the hook does not only ever raise the
  minimum. With floor 1113600 and the proposal (2000000, 1000000), whose minimum
  exceeds its maximum, the hook returns the minimum 1000000.
\<close>

theorem boost_adjust_notify_lowers_min:
  "pol_min (snd (boost_adjust_notify (\<lambda>c. \<lparr>cpu = int c, input_boost_min = 1113600\<rparr>)
       CPUFREQ_ADJUST \<lparr>pol_cpu = 0, pol_min = 2000000, pol_max = 1000000\<rparr>)) = 1000000
   \<and> pol_min (snd (boost_adjust_notify (\<lambda>c. \<lparr>cpu = int c, input_boost_min = 1113600\<rparr>)
       CPUFREQ_ADJUST \<lparr>pol_cpu = 0, pol_min = 2000000, pol_max = 1000000\<rparr>))
       < pol_min \<lparr>pol_cpu = 0, pol_min = 2000000, pol_max = 1000000\<rparr>"
  by (simp add: boost_adjust_notify_def Let_def cpufreq_verify_within_limits_def UINT_MAX_def)

text \<open>
  Claim C10, amended. The hook never changes the proposed maximum (nor the CPU of the
  policy), and for every event other than \<^verbatim>\<open>CPUFREQ_ADJUST\<close>, and whenever the
  floor is 0, it returns the policy unchanged. It never lowers the minimum of a
  proposal whose minimum is at or below its maximum, and the minimum it returns is
  never below the smaller of the two proposed limits. For a proposal whose minimum
  exceeds its maximum, on \<^verbatim>\<open>CPUFREQ_ADJUST\<close> with a non-zero floor, the minimum
  comes back equal to the maximum.
\<close>

theorem boost_adjust_notify_frame:
  "pol_max (snd (boost_adjust_notify sync val p)) = pol_max p
   \<and> pol_cpu (snd (boost_adjust_notify sync val p)) = pol_cpu p
   \<and> (pol_min p \<le> pol_max p \<longrightarrow> pol_min p \<le> pol_min (snd (boost_adjust_notify sync val p)))
   \<and> (val \<noteq> CPUFREQ_ADJUST \<longrightarrow> boost_adjust_notify sync val p = (NOTIFY_OK, p))
   \<and> min (pol_min p) (pol_max p) \<le> pol_min (snd (boost_adjust_notify sync val p))
   \<and> (pol_max p < pol_min p \<and> val = CPUFREQ_ADJUST
        \<and> input_boost_min (sync (pol_cpu p)) \<noteq> 0 \<longrightarrow>
      pol_min (snd (boost_adjust_notify sync val p)) = pol_max p)
   \<and> (input_boost_min (sync (pol_cpu p)) = 0 \<longrightarrow> boost_adjust_notify sync val p = (NOTIFY_OK, p))"
proof -
  have "min (if x = UINT_MAX then pol_max p else x) (pol_max p) \<le> pol_max p" for x
    by simp
  then show ?thesis
    by (auto simp: boost_adjust_notify_def Let_def cpufreq_verify_within_limits_floor
        min_def max_def)
qed

text \<open>
  At the proposal (300000, 2000000) with the unbounded floor, for the event
  \<^verbatim>\<open>CPUFREQ_ADJUST\<close> and for another event; and at the proposal
  (1800000, 900000) with the unbounded floor and with floor 0.
\<close>

theorem boost_adjust_notify_frame_witness:
  "pol_min \<lparr>pol_cpu = 0, pol_min = 300000, pol_max = 2000000\<rparr>
     \<le> pol_max \<lparr>pol_cpu = 0, pol_min = 300000, pol_max = 2000000\<rparr>
   \<and> (300000 :: uint) \<le> pol_min (snd (boost_adjust_notify
         (\<lambda>c. \<lparr>cpu = int c, input_boost_min = UINT_MAX\<rparr>) CPUFREQ_ADJUST
         \<lparr>pol_cpu = 0, pol_min = 300000, pol_max = 2000000\<rparr>))
   \<and> (1 :: ulong) \<noteq> CPUFREQ_ADJUST
   \<and> boost_adjust_notify (\<lambda>c. \<lparr>cpu = int c, input_boost_min = UINT_MAX\<rparr>) 1
         \<lparr>pol_cpu = 0, pol_min = 300000, pol_max = 2000000\<rparr> =
       (NOTIFY_OK, \<lparr>pol_cpu = 0, pol_min = 300000, pol_max = 2000000\<rparr>)
   \<and> pol_max \<lparr>pol_cpu = 3, pol_min = 1800000, pol_max = 900000\<rparr>
       < pol_min \<lparr>pol_cpu = 3, pol_min = 1800000, pol_max = 900000\<rparr>
   \<and> input_boost_min ((\<lambda>c. \<lparr>cpu = int c, input_boost_min = UINT_MAX\<rparr>) 3) \<noteq> 0
   \<and> pol_min (snd (boost_adjust_notify (\<lambda>c. \<lparr>cpu = int c, input_boost_min = UINT_MAX\<rparr>)
         CPUFREQ_ADJUST \<lparr>pol_cpu = 3, pol_min = 1800000, pol_max = 900000\<rparr>)) = 900000
   \<and> boost_adjust_notify (\<lambda>c. \<lparr>cpu = int c, input_boost_min = 0\<rparr>)
         CPUFREQ_ADJUST \<lparr>pol_cpu = 3, pol_min = 1800000, pol_max = 900000\<rparr> =
       (NOTIFY_OK, \<lparr>pol_cpu = 3, pol_min = 1800000, pol_max = 900000\<rparr>)"
  using
    boost_adjust_notify_frame [of "\<lambda>c. \<lparr>cpu = int c, input_boost_min = UINT_MAX\<rparr>"
      CPUFREQ_ADJUST "\<lparr>pol_cpu = 0, pol_min = 300000, pol_max = 2000000\<rparr>"]
    boost_adjust_notify_frame [of "\<lambda>c. \<lparr>cpu = int c, input_boost_min = UINT_MAX\<rparr>"
      1 "\<lparr>pol_cpu = 0, pol_min = 300000, pol_max = 2000000\<rparr>"]
    boost_adjust_notify_frame [of "\<lambda>c. \<lparr>cpu = int c, input_boost_min = UINT_MAX\<rparr>"
      CPUFREQ_ADJUST "\<lparr>pol_cpu = 3, pol_min = 1800000, pol_max = 900000\<rparr>"]
    boost_adjust_notify_frame [of "\<lambda>c. \<lparr>cpu = int c, input_boost_min = 0\<rparr>"
      CPUFREQ_ADJUST "\<lparr>pol_cpu = 3, pol_min = 1800000, pol_max = 900000\<rparr>"]
  by (simp add: CPUFREQ_ADJUST_def UINT_MAX_def)

end
